theory Spec2Isabelle
  imports Main "HOL-Library.Word" "HOL-Library.AList"
begin

unbundle bit_operations_syntax

section \<open>Package scope: scope kinds and the packed hash\<close>

text \<open>
  Modelled from the spec: the declaration of the type \<^verbatim>\<open>Scope\<close> is not part of
  \<^verbatim>\<open>store/scope/hash.go\<close>.  The specification gives an 8-bit scope tag, and
  \<^verbatim>\<open>hash.go\<close> converts with \<^verbatim>\<open>Scope(h >> 24)\<close>, so a scope is an unsigned
  8-bit value.
\<close>

type_synonym Scope = "8 word"

text \<open>
  Modelled from the spec: the scope constants are declared outside the sources.  The
  specification gives the closed set \<open>{Absent=0, Default, Website, Group, Store}\<close> with
  \<open>Store > Group > Website > Default > Absent\<close>.
\<close>

definition Absent :: Scope where
  "Absent = 0"

text \<open>Modelled from the spec: the scope constant \<^verbatim>\<open>Default\<close>, the second of the set.\<close>

definition Default :: Scope where
  "Default = 1"

text \<open>Modelled from the spec: the scope constant \<^verbatim>\<open>Website\<close>, the third of the set.\<close>

definition Website :: Scope where
  "Website = 2"

text \<open>Modelled from the spec: the scope constant \<^verbatim>\<open>Group\<close>, the fourth of the set.\<close>

definition Group :: Scope where
  "Group = 3"

text \<open>Modelled from the spec: the scope constant \<^verbatim>\<open>Store\<close>, the last of the set.\<close>

definition Store :: Scope where
  "Store = 4"

text \<open>
  Modelled from the spec: the constant \<^verbatim>\<open>maxUint8\<close> is used by
  \<^verbatim>\<open>hash.go\<close> but declared elsewhere in the package; it is the largest value of
  the 8-bit scope tag.
\<close>

definition maxUint8 :: "32 word" where
  "maxUint8 = 255"

text \<open>\<^verbatim>\<open>type Hash uint32\<close>; identifiers are \<^verbatim>\<open>int64\<close>, read as two's
  complement through \<open>sint\<close>, \<open><s\<close> and \<open>\<le>s\<close>.\<close>

type_synonym Hash = "32 word"
type_synonym int64 = "64 word"

text \<open>\<^verbatim>\<open>const MaxStoreID int64 = 1<<23 - 1\<close>\<close>

definition MaxStoreID :: int64 where "MaxStoreID = push_bit 23 1 - 1"

text \<open>\<^verbatim>\<open>const DefaultHash Hash = Hash(Default)<<24 | 0\<close>\<close>

definition DefaultHash :: Hash where
  "DefaultHash = push_bit 24 (ucast Default) OR 0"

text \<open>
  \<^verbatim>\<open>func (h Hash) Unpack() (s Scope, id int64)\<close>.  The conversion
  \<^verbatim>\<open>int64(h)\<close> of an unsigned 32-bit value is a zero extension; \<^verbatim>\<open>>>\<close> on
  \<^verbatim>\<open>int64\<close> is the arithmetic shift; \<^verbatim>\<open>^\<close> binds weaker than the shifts.
\<close>

definition Unpack :: "Hash \<Rightarrow> Scope \<times> int64" where
  "Unpack h =
    (let prospectS = drop_bit 24 h in
     if maxUint8 < prospectS \<or> prospectS < 0 then (Absent, - 1)
     else
       let s = (ucast prospectS :: Scope);
           h64 = (ucast h :: int64);
           prospectID = h64 XOR push_bit 24 (signed_drop_bit 24 h64)
       in if MaxStoreID <s prospectID \<or> prospectID <s 0 then (Absent, - 1)
          else (s, prospectID))"

text \<open>\<^verbatim>\<open>func (h Hash) EqualScope(other Hash) bool\<close>\<close>

definition EqualScope :: "Hash \<Rightarrow> Hash \<Rightarrow> bool" where
  "EqualScope h other =
    (let hScope = drop_bit 24 h in
     if maxUint8 < hScope \<or> hScope \<le> 0 then False
     else
       let oScope = drop_bit 24 other in
       if maxUint8 < oScope \<or> oScope \<le> 0 then False
       else hScope = oScope)"

text \<open>\<^verbatim>\<open>func (h Hash) Scope() Scope\<close>\<close>

definition Hash_Scope :: "Hash \<Rightarrow> Scope" where
  "Hash_Scope h =
    (let hScope = drop_bit 24 h in
     if maxUint8 < hScope \<or> hScope < 0 then Absent else ucast hScope)"

text \<open>\<^verbatim>\<open>func (h Hash) ID() int64\<close>\<close>

definition ID :: "Hash \<Rightarrow> int64" where
  "ID h =
    (let h64 = (ucast h :: int64);
         prospectID = h64 XOR push_bit 24 (signed_drop_bit 24 h64)
     in if MaxStoreID <s prospectID \<or> prospectID <s 0 then - 1 else prospectID)"

text \<open>\<^verbatim>\<open>func (h Hash) ValidParent(parent Hash) bool\<close>\<close>

definition ValidParent :: "Hash \<Rightarrow> Hash \<Rightarrow> bool" where
  "ValidParent h parent =
    (let (p, pID) = Unpack parent;
         (c, cID) = Unpack h
     in (p = Default \<and> pID = 0 \<and> c = Default \<and> cID = 0) \<or>
        (p = Default \<and> pID = 0 \<and> c = Website \<and> 0 \<le>s cID) \<or>
        (p = Website \<and> 0 \<le>s pID \<and> c = Store \<and> 0 \<le>s cID))"

text \<open>
  \<^verbatim>\<open>func NewHash(s Scope, id int64) Hash\<close>.  \<^verbatim>\<open>Hash(id)\<close> truncates the
  64-bit identifier to 32 bits
  (the parameter \<^verbatim>\<open>id\<close> is written \<open>ident\<close>).
\<close>

definition NewHash :: "Scope \<Rightarrow> int64 \<Rightarrow> Hash" where
  "NewHash s ident =
    (if MaxStoreID <s ident \<or> (Default < s \<and> ident <s 0) then 0
     else
       let ident' = (if s < Website then 0 else ident)
       in push_bit 24 (ucast s) OR ucast ident')"


section \<open>Package errors: behaviours\<close>

text \<open>
  Modelled from the spec: package \<^verbatim>\<open>util/errors\<close> is not part of the sources.  The
  specification names the behaviours NotFound, NotValid, NotSupported and Empty, and says
  that wrapping an error with a contextual prefix preserves its classification.  An error
  is a root cause with a behaviour and a message, or another error wrapped with a format
  string and its argument; \<open>Unclassified\<close> stands for root causes with none of the four
  behaviours.  A Go \<^verbatim>\<open>error\<close> value is an \<open>error option\<close>, \<open>None\<close> for
  \<^verbatim>\<open>nil\<close>.
\<close>

datatype behaviour = NotFound | NotValid | NotSupported | Empty | Unclassified

datatype error = Error behaviour string | Wrapped error string string

text \<open>
  Modelled from the spec: \<^verbatim>\<open>errors.Cause\<close> is not part of the sources; the behaviour
  of an error is the behaviour of its root cause, which wrapping preserves.
\<close>

fun Cause :: "error \<Rightarrow> behaviour" where
  "Cause (Error b m) = b"
| "Cause (Wrapped e f a) = Cause e"

text \<open>
  Modelled from the spec: \<^verbatim>\<open>errors.IsNotFound\<close> is not part of the sources; it tells
  whether an error is NotFound-flavored, and is false for \<^verbatim>\<open>nil\<close>.
\<close>

definition IsNotFound :: "error option \<Rightarrow> bool" where
  "IsNotFound err = (case err of None \<Rightarrow> False | Some e \<Rightarrow> Cause e = NotFound)"

text \<open>
  Modelled from the spec: \<^verbatim>\<open>errors.IsNotValid\<close> is not part of the sources; it tells
  whether an error is NotValid-flavored, and is false for \<^verbatim>\<open>nil\<close>.
\<close>

definition IsNotValid :: "error option \<Rightarrow> bool" where
  "IsNotValid err = (case err of None \<Rightarrow> False | Some e \<Rightarrow> Cause e = NotValid)"

text \<open>
  Modelled from the spec: \<^verbatim>\<open>errors.Wrapf\<close> is not part of the sources; it wraps an
  error with a contextual prefix, here the format string and its argument, unformatted.
\<close>

definition Wrapf :: "error \<Rightarrow> string \<Rightarrow> string \<Rightarrow> error" where
  "Wrapf e f a = Wrapped e f a"

text \<open>
  Modelled from the spec: \<^verbatim>\<open>errors.Wrap\<close> is not part of the sources; it wraps an
  error with a contextual prefix.
\<close>

definition Wrap :: "error \<Rightarrow> string \<Rightarrow> error" where
  "Wrap e m = Wrapped e m []"

section \<open>Package scope: permission sets\<close>

text \<open>
  Modelled from the spec: the type \<^verbatim>\<open>Perm\<close> is not part of the sources.  The
  specification describes permission bit-sets over the scope kinds: bit \<open>k\<close> of a set
  stands for the scope kind of value \<open>k\<close>.
\<close>

type_synonym Perm = "16 word"

text \<open>
  Modelled from the spec: the method \<^verbatim>\<open>Has(kind)\<close> is not part of the sources; it is
  the membership test of a permission set.
\<close>

definition Has :: "Perm \<Rightarrow> Scope \<Rightarrow> bool" where
  "Has bits s = bit bits (unat s)"

text \<open>
  Modelled from the spec: the constant \<^verbatim>\<open>PermStoreReverse\<close> is not part of the
  sources.  It is the reverse set that answers whether the Store scope may be reached from
  the currently active scope: from an active Store scope, and from no other (a Website
  restriction skips the Store attempt).
\<close>

definition PermStoreReverse :: Perm where
  "PermStoreReverse = push_bit (unat Store) 1"

text \<open>
  Modelled from the spec: the constant \<^verbatim>\<open>PermWebsiteReverse\<close> is not part of the
  sources.  It is the reverse set that answers whether the Website scope may be reached
  from the currently active scope: from an active Store scope (whose fallback goes to
  Website) and from an active Website scope.
\<close>

definition PermWebsiteReverse :: Perm where
  "PermWebsiteReverse = push_bit (unat Store) 1 OR push_bit (unat Website) 1"

section \<open>Package cfgpath: paths\<close>

text \<open>
  Modelled from the spec: the type \<^verbatim>\<open>cfgpath.Path\<close> is not part of the sources.  A
  path is a route, a slash-separated string, together with the hash of the scope it is
  bound to.
\<close>

record Path =
  Route :: string
  ScopeHash :: Hash

text \<open>
  Modelled from the spec: the route validation of package \<^verbatim>\<open>cfgpath\<close> is not part
  of the sources.  A route is cut at its slashes into segments; it is valid when it has
  exactly three segments, none of them empty, which excludes a leading and a trailing
  slash.  The specification does not list the disallowed characters, so none are
  modelled.
\<close>

fun split_route :: "string \<Rightarrow> string list" where
  "split_route [] = [[]]"
| "split_route (c # cs) =
    (if c = CHR ''/'' then [] # split_route cs
     else (case split_route cs of [] \<Rightarrow> [[c]] | x # xs \<Rightarrow> (c # x) # xs))"

text \<open>
  Modelled from the spec: the validity of a route, three non-empty segments, as described
  for \<open>split_route\<close>.
\<close>

definition valid_route :: "string \<Rightarrow> bool" where
  "valid_route r = (let segs = split_route r in length segs = 3 \<and> [] \<notin> set segs)"

text \<open>
  Modelled from the spec: the constructor \<^verbatim>\<open>cfgpath.New\<close> is not part of the
  sources.  It validates the route once and fails with a NotValid error on a malformed
  one; a fresh path is bound to the default scope.
\<close>

definition cfgpath_New :: "string \<Rightarrow> error + Path" where
  "cfgpath_New r =
    (if valid_route r then Inr \<lparr>Route = r, ScopeHash = DefaultHash\<rparr>
     else Inl (Error NotValid ''[cfgpath] Route is not valid''))"

text \<open>
  Modelled from the spec: \<^verbatim>\<open>Path.BindStore\<close> is not part of the sources.  It returns
  a copy with the hash set to Store/id, changes nothing else, and does not validate the
  identifier.
\<close>

definition BindStore :: "Path \<Rightarrow> int64 \<Rightarrow> Path" where
  "BindStore p ident = p\<lparr>ScopeHash := NewHash Store ident\<rparr>"

text \<open>
  Modelled from the spec: \<^verbatim>\<open>Path.BindWebsite\<close> is not part of the sources.  It
  returns a copy with the hash set to Website/id, changes nothing else, and does not
  validate the identifier.
\<close>

definition BindWebsite :: "Path \<Rightarrow> int64 \<Rightarrow> Path" where
  "BindWebsite p ident = p\<lparr>ScopeHash := NewHash Website ident\<rparr>"

section \<open>Package config: the scoped resolver\<close>

text \<open>
  The \<^verbatim>\<open>Getter\<close> interface of the root service: one exact-scope accessor per value
  type, each returning the pair \<^verbatim>\<open>(value, error)\<close>.  A \<^verbatim>\<open>[]byte\<close> is an optional
  byte list (\<open>None\<close> for the \<^verbatim>\<open>nil\<close> slice), a \<^verbatim>\<open>float64\<close> is carried as its
  64-bit pattern, an \<^verbatim>\<open>int\<close> as a 64-bit word, and a \<^verbatim>\<open>time.Time\<close> as the record
  of its three fields; the resolver only passes these values through.  The methods carry
  the prefix \<open>Get_\<close>, since \<open>Int\<close> is taken by the set intersection of HOL.
\<close>

record GoTime =
  wall :: "64 word"
  ext :: int64
  loc :: "nat option"

definition zeroTime :: GoTime where
  "zeroTime = \<lparr>wall = 0, ext = 0, loc = None\<rparr>"

record Getter =
  Get_Byte :: "Path \<Rightarrow> 8 word list option \<times> error option"
  Get_String :: "Path \<Rightarrow> string \<times> error option"
  Get_Bool :: "Path \<Rightarrow> bool \<times> error option"
  Get_Float64 :: "Path \<Rightarrow> 64 word \<times> error option"
  Get_Int :: "Path \<Rightarrow> 64 word \<times> error option"
  Get_Time :: "Path \<Rightarrow> GoTime \<times> error option"

text \<open>\<^verbatim>\<open>type Scoped struct { Root Getter; WebsiteID int64; StoreID int64 }\<close>\<close>

record Scoped =
  Root :: Getter
  WebsiteID :: int64
  StoreID :: int64

text \<open>\<^verbatim>\<open>func NewScoped(r Getter, websiteID, storeID int64) Scoped\<close>\<close>

definition NewScoped :: "Getter \<Rightarrow> int64 \<Rightarrow> int64 \<Rightarrow> Scoped" where
  "NewScoped r websiteID storeID = \<lparr>Root = r, WebsiteID = websiteID, StoreID = storeID\<rparr>"

text \<open>\<^verbatim>\<open>func (ss Scoped) Parent() (scope.Scope, int64)\<close>\<close>

definition Scoped_Parent :: "Scoped \<Rightarrow> Scope \<times> int64" where
  "Scoped_Parent ss = (if 0 <s StoreID ss then (Website, WebsiteID ss) else (Default, 0))"

text \<open>\<^verbatim>\<open>func (ss Scoped) Scope() (scope.Scope, int64)\<close>\<close>

definition Scoped_Scope :: "Scoped \<Rightarrow> Scope \<times> int64" where
  "Scoped_Scope ss =
    (if 0 <s StoreID ss then (Store, StoreID ss)
     else if 0 <s WebsiteID ss then (Website, WebsiteID ss)
     else (Default, 0))"

text \<open>
  \<^verbatim>\<open>func (ss Scoped) isAllowedStore(s ...scope.Scope) bool\<close>; the variadic argument
  is the list \<open>s\<close>.
\<close>

definition isAllowedStore :: "Scoped \<Rightarrow> Scope list \<Rightarrow> bool" where
  "isAllowedStore ss s =
    (let scp = fst (Scoped_Scope ss);
         scp = (if 0 < length s \<and> Absent < s ! 0 then s ! 0 else scp)
     in 0 <s StoreID ss \<and> Has PermStoreReverse scp)"

text \<open>\<^verbatim>\<open>func (ss Scoped) isAllowedWebsite(s ...scope.Scope) bool\<close>\<close>

definition isAllowedWebsite :: "Scoped \<Rightarrow> Scope list \<Rightarrow> bool" where
  "isAllowedWebsite ss s =
    (let scp = fst (Scoped_Scope ss);
         scp = (if 0 < length s \<and> Absent < s ! 0 then s ! 0 else scp)
     in 0 <s WebsiteID ss \<and> Has PermWebsiteReverse scp)"

text \<open>
  The six typed accessors.  Each returns the triple \<^verbatim>\<open>(value, hash, error)\<close> of the
  source and, as a second component, the paths handed to the root getter, in call order:
  the root getter is an external collaborator, and this log is the record of the calls
  made to it.  An early \<^verbatim>\<open>return\<close> out of the Store or Website attempt is the
  \<open>Some\<close> case of the attempt's outcome; \<open>None\<close> falls through to the next attempt with
  the path as rebound so far.
\<close>

text \<open>\<^verbatim>\<open>func (ss Scoped) Byte(r cfgpath.Route, s ...scope.Scope) ([]byte, scope.Hash, error)\<close>\<close>

definition Scoped_Byte ::
  "Scoped \<Rightarrow> string \<Rightarrow> Scope list \<Rightarrow> (8 word list option \<times> Hash \<times> error option) \<times> Path list" where
  "Scoped_Byte ss r s =
    (case cfgpath_New r of
       Inl err \<Rightarrow> ((None, 0, Some (Wrapf err ''[config] Byte. Route %q'' r)), [])
     | Inr p \<Rightarrow>
       (let (ret, p, calls) =
              (if isAllowedStore ss s then
                 let p = BindStore p (StoreID ss);
                     (v, err) = Get_Byte (Root ss) p
                 in ((if \<not> IsNotFound err \<or> err = None then Some (v, ScopeHash p, err)
                      else None), p, [p])
               else (None, p, []))
        in (case ret of
             Some res \<Rightarrow> (res, calls)
           | None \<Rightarrow>
             (let (ret, p, calls) =
                    (if isAllowedWebsite ss s then
                       let p = BindWebsite p (WebsiteID ss);
                           (v, err) = Get_Byte (Root ss) p
                       in ((if \<not> IsNotFound err \<or> err = None then Some (v, ScopeHash p, err)
                            else None), p, calls @ [p])
                     else (None, p, calls))
              in (case ret of
                   Some res \<Rightarrow> (res, calls)
                 | None \<Rightarrow>
                   (let p = p\<lparr>ScopeHash := DefaultHash\<rparr>;
                        (v, err) = Get_Byte (Root ss) p
                    in ((v, DefaultHash, err), calls @ [p])))))))"

text \<open>\<^verbatim>\<open>func (ss Scoped) String(r cfgpath.Route, s ...scope.Scope) (string, scope.Hash, error)\<close>\<close>

definition Scoped_String ::
  "Scoped \<Rightarrow> string \<Rightarrow> Scope list \<Rightarrow> (string \<times> Hash \<times> error option) \<times> Path list" where
  "Scoped_String ss r s =
    (case cfgpath_New r of
       Inl err \<Rightarrow> (('''', 0, Some (Wrapf err ''[config] String. Route %q'' r)), [])
     | Inr p \<Rightarrow>
       (let (ret, p, calls) =
              (if isAllowedStore ss s then
                 let p = BindStore p (StoreID ss);
                     (v, err) = Get_String (Root ss) p
                 in ((if \<not> IsNotFound err \<or> err = None then Some (v, ScopeHash p, err)
                      else None), p, [p])
               else (None, p, []))
        in (case ret of
             Some res \<Rightarrow> (res, calls)
           | None \<Rightarrow>
             (let (ret, p, calls) =
                    (if isAllowedWebsite ss s then
                       let p = BindWebsite p (WebsiteID ss);
                           (v, err) = Get_String (Root ss) p
                       in ((if \<not> IsNotFound err \<or> err = None then Some (v, ScopeHash p, err)
                            else None), p, calls @ [p])
                     else (None, p, calls))
              in (case ret of
                   Some res \<Rightarrow> (res, calls)
                 | None \<Rightarrow>
                   (let p = p\<lparr>ScopeHash := DefaultHash\<rparr>;
                        (v, err) = Get_String (Root ss) p
                    in ((v, DefaultHash, err), calls @ [p])))))))"

text \<open>\<^verbatim>\<open>func (ss Scoped) Bool(r cfgpath.Route, s ...scope.Scope) (bool, scope.Hash, error)\<close>\<close>

definition Scoped_Bool ::
  "Scoped \<Rightarrow> string \<Rightarrow> Scope list \<Rightarrow> (bool \<times> Hash \<times> error option) \<times> Path list" where
  "Scoped_Bool ss r s =
    (case cfgpath_New r of
       Inl err \<Rightarrow> ((False, 0, Some (Wrapf err ''[config] Bool. Route %q'' r)), [])
     | Inr p \<Rightarrow>
       (let (ret, p, calls) =
              (if isAllowedStore ss s then
                 let p = BindStore p (StoreID ss);
                     (v, err) = Get_Bool (Root ss) p
                 in ((if \<not> IsNotFound err \<or> err = None then Some (v, ScopeHash p, err)
                      else None), p, [p])
               else (None, p, []))
        in (case ret of
             Some res \<Rightarrow> (res, calls)
           | None \<Rightarrow>
             (let (ret, p, calls) =
                    (if isAllowedWebsite ss s then
                       let p = BindWebsite p (WebsiteID ss);
                           (v, err) = Get_Bool (Root ss) p
                       in ((if \<not> IsNotFound err \<or> err = None then Some (v, ScopeHash p, err)
                            else None), p, calls @ [p])
                     else (None, p, calls))
              in (case ret of
                   Some res \<Rightarrow> (res, calls)
                 | None \<Rightarrow>
                   (let p = p\<lparr>ScopeHash := DefaultHash\<rparr>;
                        (v, err) = Get_Bool (Root ss) p
                    in ((v, DefaultHash, err), calls @ [p])))))))"

text \<open>\<^verbatim>\<open>func (ss Scoped) Float64(r cfgpath.Route, s ...scope.Scope) (float64, scope.Hash, error)\<close>\<close>

definition Scoped_Float64 ::
  "Scoped \<Rightarrow> string \<Rightarrow> Scope list \<Rightarrow> (64 word \<times> Hash \<times> error option) \<times> Path list" where
  "Scoped_Float64 ss r s =
    (case cfgpath_New r of
       Inl err \<Rightarrow> ((0, 0, Some (Wrapf err ''[config] Float64. Route %q'' r)), [])
     | Inr p \<Rightarrow>
       (let (ret, p, calls) =
              (if isAllowedStore ss s then
                 let p = BindStore p (StoreID ss);
                     (v, err) = Get_Float64 (Root ss) p
                 in ((if \<not> IsNotFound err \<or> err = None then Some (v, ScopeHash p, err)
                      else None), p, [p])
               else (None, p, []))
        in (case ret of
             Some res \<Rightarrow> (res, calls)
           | None \<Rightarrow>
             (let (ret, p, calls) =
                    (if isAllowedWebsite ss s then
                       let p = BindWebsite p (WebsiteID ss);
                           (v, err) = Get_Float64 (Root ss) p
                       in ((if \<not> IsNotFound err \<or> err = None then Some (v, ScopeHash p, err)
                            else None), p, calls @ [p])
                     else (None, p, calls))
              in (case ret of
                   Some res \<Rightarrow> (res, calls)
                 | None \<Rightarrow>
                   (let p = p\<lparr>ScopeHash := DefaultHash\<rparr>;
                        (v, err) = Get_Float64 (Root ss) p
                    in ((v, DefaultHash, err), calls @ [p])))))))"

text \<open>\<^verbatim>\<open>func (ss Scoped) Int(r cfgpath.Route, s ...scope.Scope) (int, scope.Hash, error)\<close>\<close>

definition Scoped_Int ::
  "Scoped \<Rightarrow> string \<Rightarrow> Scope list \<Rightarrow> (64 word \<times> Hash \<times> error option) \<times> Path list" where
  "Scoped_Int ss r s =
    (case cfgpath_New r of
       Inl err \<Rightarrow> ((0, 0, Some (Wrapf err ''[config] Int. Route %q'' r)), [])
     | Inr p \<Rightarrow>
       (let (ret, p, calls) =
              (if isAllowedStore ss s then
                 let p = BindStore p (StoreID ss);
                     (v, err) = Get_Int (Root ss) p
                 in ((if \<not> IsNotFound err \<or> err = None then Some (v, ScopeHash p, err)
                      else None), p, [p])
               else (None, p, []))
        in (case ret of
             Some res \<Rightarrow> (res, calls)
           | None \<Rightarrow>
             (let (ret, p, calls) =
                    (if isAllowedWebsite ss s then
                       let p = BindWebsite p (WebsiteID ss);
                           (v, err) = Get_Int (Root ss) p
                       in ((if \<not> IsNotFound err \<or> err = None then Some (v, ScopeHash p, err)
                            else None), p, calls @ [p])
                     else (None, p, calls))
              in (case ret of
                   Some res \<Rightarrow> (res, calls)
                 | None \<Rightarrow>
                   (let p = p\<lparr>ScopeHash := DefaultHash\<rparr>;
                        (v, err) = Get_Int (Root ss) p
                    in ((v, DefaultHash, err), calls @ [p])))))))"

text \<open>\<^verbatim>\<open>func (ss Scoped) Time(r cfgpath.Route, s ...scope.Scope) (time.Time, scope.Hash, error)\<close>\<close>

definition Scoped_Time ::
  "Scoped \<Rightarrow> string \<Rightarrow> Scope list \<Rightarrow> (GoTime \<times> Hash \<times> error option) \<times> Path list" where
  "Scoped_Time ss r s =
    (case cfgpath_New r of
       Inl err \<Rightarrow> ((zeroTime, 0, Some (Wrapf err ''[config] Time. Route %q'' r)), [])
     | Inr p \<Rightarrow>
       (let (ret, p, calls) =
              (if isAllowedStore ss s then
                 let p = BindStore p (StoreID ss);
                     (v, err) = Get_Time (Root ss) p
                 in ((if \<not> IsNotFound err \<or> err = None then Some (v, ScopeHash p, err)
                      else None), p, [p])
               else (None, p, []))
        in (case ret of
             Some res \<Rightarrow> (res, calls)
           | None \<Rightarrow>
             (let (ret, p, calls) =
                    (if isAllowedWebsite ss s then
                       let p = BindWebsite p (WebsiteID ss);
                           (v, err) = Get_Time (Root ss) p
                       in ((if \<not> IsNotFound err \<or> err = None then Some (v, ScopeHash p, err)
                            else None), p, calls @ [p])
                     else (None, p, calls))
              in (case ret of
                   Some res \<Rightarrow> (res, calls)
                 | None \<Rightarrow>
                   (let p = p\<lparr>ScopeHash := DefaultHash\<rparr>;
                        (v, err) = Get_Time (Root ss) p
                    in ((v, DefaultHash, err), calls @ [p])))))))"


text \<open>
  The six bodies differ in the accessor of the root getter, the zero value and the
  message only.  Their common part, from the constructed path on, is \<open>resolve\<close>; it is
  used to prove a property of the six once.
\<close>

definition resolve ::
  "(Path \<Rightarrow> 'v \<times> error option) \<Rightarrow> Scoped \<Rightarrow> Path \<Rightarrow> Scope list \<Rightarrow>
     ('v \<times> Hash \<times> error option) \<times> Path list" where
  "resolve get ss p s =
       (let (ret, p, calls) =
              (if isAllowedStore ss s then
                 let p = BindStore p (StoreID ss);
                     (v, err) = get p
                 in ((if \<not> IsNotFound err \<or> err = None then Some (v, ScopeHash p, err)
                      else None), p, [p])
               else (None, p, []))
        in (case ret of
             Some res \<Rightarrow> (res, calls)
           | None \<Rightarrow>
             (let (ret, p, calls) =
                    (if isAllowedWebsite ss s then
                       let p = BindWebsite p (WebsiteID ss);
                           (v, err) = get p
                       in ((if \<not> IsNotFound err \<or> err = None then Some (v, ScopeHash p, err)
                            else None), p, calls @ [p])
                     else (None, p, calls))
              in (case ret of
                   Some res \<Rightarrow> (res, calls)
                 | None \<Rightarrow>
                   (let p = p\<lparr>ScopeHash := DefaultHash\<rparr>;
                        (v, err) = get p
                    in ((v, DefaultHash, err), calls @ [p]))))))"

text \<open>
  The situation of the fallback property: the root accessor \<open>get\<close> reports a NotFound error
  at the Store-bound and at the Website-bound path, and holds the value \<open>v\<close>, without
  error, at the Default-bound path.
\<close>

definition only_at_default ::
  "(Path \<Rightarrow> 'v \<times> error option) \<Rightarrow> Path \<Rightarrow> int64 \<Rightarrow> int64 \<Rightarrow> 'v \<Rightarrow> bool" where
  "only_at_default get p websiteID storeID v =
    (IsNotFound (snd (get (BindStore p storeID))) \<and>
     IsNotFound (snd (get (BindWebsite p websiteID))) \<and>
     get (p\<lparr>ScopeHash := DefaultHash\<rparr>) = (v, None))"

text \<open>
  The resolution the specification describes for a Website restriction, written from its
  words and not from the source: no Store attempt; the Website attempt when the website
  identifier is positive, returning what it finds unless that is a NotFound error; then
  the Default attempt, whose result is returned with the default hash.  The second
  component lists the paths looked up.
\<close>

definition website_then_default ::
  "(Path \<Rightarrow> 'v \<times> error option) \<Rightarrow> int64 \<Rightarrow> Path \<Rightarrow> ('v \<times> Hash \<times> error option) \<times> Path list" where
  "website_then_default get websiteID p =
    (let w = BindWebsite p websiteID;
         d = p\<lparr>ScopeHash := DefaultHash\<rparr>
     in if 0 <s websiteID \<and> \<not> (IsNotFound (snd (get w)) \<and> snd (get w) \<noteq> None)
        then ((fst (get w), NewHash Website websiteID, snd (get w)), [w])
        else ((fst (get d), DefaultHash, snd (get d)),
              (if 0 <s websiteID then [w] else []) @ [d]))"

text \<open>
  Two root getters for concrete runs.  \<open>default_only_root\<close> holds one value per type at
  the default scope and reports NotFound at every other scope; \<open>broken_root\<close> fails at
  every path with an error that is not NotFound.
\<close>

definition errKeyNotFound :: error where
  "errKeyNotFound = Error NotFound ''[config] key not found''"


definition default_only_root :: Getter where
  "default_only_root =
    \<lparr>Get_Byte = (\<lambda>p. if ScopeHash p = DefaultHash then (Some [71, 111], None)
                       else (None, Some errKeyNotFound)),
     Get_String = (\<lambda>p. if ScopeHash p = DefaultHash then (''http://cs.io'', None)
                         else ('''', Some errKeyNotFound)),
     Get_Bool = (\<lambda>p. if ScopeHash p = DefaultHash then (True, None)
                       else (False, Some errKeyNotFound)),
     Get_Float64 = (\<lambda>p. if ScopeHash p = DefaultHash then (0x400921F9F01B866E, None)
                          else (0, Some errKeyNotFound)),
     Get_Int = (\<lambda>p. if ScopeHash p = DefaultHash then (2016, None)
                      else (0, Some errKeyNotFound)),
     Get_Time = (\<lambda>p. if ScopeHash p = DefaultHash then (zeroTime\<lparr>ext := 1\<rparr>, None)
                       else (zeroTime, Some errKeyNotFound))\<rparr>"


section \<open>Package ctxcors: the scoped configuration cache\<close>

text \<open>
  Modelled from the spec: the type \<^verbatim>\<open>scopedConfig\<close> of package \<^verbatim>\<open>ctxcors\<close> is
  not part of the sources.  The specification describes a cache entry as the scope hash
  it was resolved for, a validity flag, and collaborator-specific fields; the latter are
  left out, and the logger the source reads from an entry is a handle, \<open>None\<close> for
  \<^verbatim>\<open>nil\<close>.
\<close>

record scopedConfig =
  scopeHash :: Hash
  valid :: bool
  logger :: "nat option"

text \<open>
  Modelled from the spec: the method \<^verbatim>\<open>scopedConfig.IsValid\<close> is not part of the
  sources; it reads the validity flag of the entry.
\<close>

definition IsValid :: "scopedConfig \<Rightarrow> bool" where
  "IsValid sc = valid sc"

text \<open>
  Modelled from the spec: the zero value \<^verbatim>\<open>scopedConfig{}\<close> of the entry type; its
  fields are zero, so it is not valid.
\<close>

definition emptyConfig :: scopedConfig where
  "emptyConfig = \<lparr>scopeHash = 0, valid = False, logger = None\<rparr>"

text \<open>
  Modelled from the spec: the error value \<^verbatim>\<open>errConfigNotFound\<close> is declared outside
  the sources; it is the ConfigNotFound error of a lookup that finds no entry.
\<close>

definition errConfigNotFound :: error where
  "errConfigNotFound = Error NotFound ''[ctxcors] ConfigNotFound''"

text \<open>
  Modelled from the spec: the message \<^verbatim>\<open>errScopedConfigNotValid\<close> is declared outside
  the sources; \<^verbatim>\<open>service.go\<close> makes a NotValid error of it, here without the
  formatted hash.
\<close>

definition errScopedConfigNotValid :: string where
  "errScopedConfigNotValid = ''[ctxcors] ScopedConfig not valid''"

text \<open>
  Modelled from the spec: the message \<^verbatim>\<open>errServiceUnsupportedScope\<close> is declared
  outside the sources; \<^verbatim>\<open>service.go\<close> makes a NotSupported error of it, here
  without the formatted hash.
\<close>

definition errServiceUnsupportedScope :: string where
  "errServiceUnsupportedScope = ''[ctxcors] Service does not support this scope''"

text \<open>
  \<^verbatim>\<open>type Service struct\<close>.  The map \<^verbatim>\<open>scopeCache\<close> is an association list read
  with \<open>map_of\<close> and written with \<open>AList.update\<close>; its order stands for the iteration
  order of the Go map.  The mutex is not modelled: every operation below runs to its end
  on the state it is given.  The field \<^verbatim>\<open>scpOptionFnc\<close> holds a function that
  returns options, and options are functions on the service itself, so it is passed
  beside the record, to the one operation that reads it.
\<close>

record Service =
  optionError :: "error option"
  defaultScopeCache :: scopedConfig
  scopeCache :: "(Hash \<times> scopedConfig) list"

text \<open>\<^verbatim>\<open>type Option func(*Service)\<close>: an option updates the service in place.\<close>

type_synonym Option = "Service \<Rightarrow> Service"

text \<open>
  The interface \<^verbatim>\<open>config.ScopedGetter\<close>, of which the cache calls the method
  \<^verbatim>\<open>Scope()\<close> only; an interface value is optional, \<open>None\<close> for \<^verbatim>\<open>nil\<close>.
\<close>

record ScopedGetter =
  SG_Scope :: "Scope \<times> int64"

type_synonym ScopedOptionFunc = "ScopedGetter option \<Rightarrow> Option list"

text \<open>
  What a lookup does beyond computing its result: reading the map at a hash, and calling
  the scope option function.  The operations return these events in order, next to their
  result and the updated service.  The debug and info log lines are not modelled.
\<close>

datatype event = MapLookup Hash | OptionFncCall

text \<open>\<^verbatim>\<open>func (s *Service) Options(opts ...Option) error\<close>\<close>

definition Options :: "Service \<Rightarrow> Option list \<Rightarrow> error option \<times> Service" where
  "Options s opts =
    (let s = fold (\<lambda>opt s. opt s) opts s in
     if optionError s \<noteq> None then (optionError s, s)
     else
       (case find (\<lambda>(h, sc). Website < fst (Unpack h)) (scopeCache s) of
          Some (h, sc) \<Rightarrow> (Some (Error NotSupported errServiceUnsupportedScope), s)
        | None \<Rightarrow> (None, s)))"

text \<open>
  \<^verbatim>\<open>func New(opts ...Option) (*Service, error)\<close>.  The option
  \<^verbatim>\<open>WithDefaultConfig(scope.Default, 0)\<close> is declared outside the sources and is
  the parameter \<open>withDefaultConfig\<close>.
\<close>

definition New :: "Option \<Rightarrow> Option list \<Rightarrow> error + Service" where
  "New withDefaultConfig opts =
    (let s = \<lparr>optionError = None, defaultScopeCache = emptyConfig, scopeCache = []\<rparr>;
         (err, s) = Options s [withDefaultConfig]
     in (case err of
           Some e \<Rightarrow> Inl (Wrap e ''[ctxcors] Options WithDefaultConfig'')
         | None \<Rightarrow>
            (let (err, s) = Options s opts
             in (case err of
                   Some e \<Rightarrow> Inl (Wrap e ''[ctxcors] Options Any Config'')
                 | None \<Rightarrow> Inr s))))"

text \<open>\<^verbatim>\<open>func (s *Service) getScopedConfig(h scope.Hash) (sc scopedConfig, ok bool)\<close>\<close>

definition getScopedConfig ::
  "Service \<Rightarrow> Hash \<Rightarrow> (scopedConfig \<times> bool) \<times> Service \<times> event list" where
  "getScopedConfig s h =
    (case map_of (scopeCache s) h of
       None \<Rightarrow> ((emptyConfig, False), s, [MapLookup h])
     | Some sc \<Rightarrow>
        (let hasChanges = False;
             (sc, hasChanges) =
               (if logger sc = None then (sc\<lparr>logger := logger (defaultScopeCache s)\<rparr>, True)
                else (sc, hasChanges));
             s = (if hasChanges then s\<lparr>scopeCache := AList.update h sc (scopeCache s)\<rparr>
                  else s)
         in ((sc, True), s, [MapLookup h])))"

text \<open>
  \<^verbatim>\<open>func (s *Service) getConfigByScopeID(fallback bool, hash scope.Hash) (scopedConfig, error)\<close>
\<close>

definition getConfigByScopeID ::
  "Service \<Rightarrow> bool \<Rightarrow> Hash \<Rightarrow> (scopedConfig \<times> error option) \<times> Service \<times> event list" where
  "getConfigByScopeID s fallback hash =
    (let empty = emptyConfig;
         ((scpCfg, ok), s, evs) = getScopedConfig s hash
     in if ok then
          (if IsValid scpCfg then ((scpCfg, None), s, evs)
           else ((empty, Some (Error NotValid errScopedConfigNotValid)), s, evs))
        else if fallback then
          (let err = None;
               err = (if \<not> IsValid (defaultScopeCache s) then Some errConfigNotFound else err)
           in ((defaultScopeCache s, err), s, evs))
        else ((empty, Some errConfigNotFound), s, evs))"

text \<open>
  \<^verbatim>\<open>func (s *Service) configByScopedGetter(sg config.ScopedGetter) (scopedConfig, error)\<close>,
  with the field \<^verbatim>\<open>s.scpOptionFnc\<close> as its first argument.
\<close>

definition configByScopedGetter ::
  "ScopedOptionFunc option \<Rightarrow> Service \<Rightarrow> ScopedGetter option \<Rightarrow>
     (scopedConfig \<times> error option) \<times> Service \<times> event list" where
  "configByScopedGetter scpOptionFnc s sg =
    (let h = DefaultHash;
         h = (case sg of None \<Rightarrow> h | Some g \<Rightarrow> NewHash (fst (SG_Scope g)) (snd (SG_Scope g)))
     in if (Option.is_none scpOptionFnc \<or> sg = None) \<and> h = DefaultHash \<and>
           IsValid (defaultScopeCache s)
        then ((defaultScopeCache s, None), s, [])
        else
          (let ((sc, err), s, evs) = getConfigByScopeID s False h
           in if err = None then ((sc, None), s, evs)
              else
                (case scpOptionFnc of
                   None \<Rightarrow>
                    (let (res, s, evs') = getConfigByScopeID s True h
                     in (res, s, evs @ evs'))
                 | Some fnc \<Rightarrow>
                    (let (err, s) = Options s (fnc sg)
                     in (case err of
                           Some e \<Rightarrow>
                            ((emptyConfig, Some (Wrap e ''[jwtauth] Options by scpOptionFnc'')),
                             s, evs @ [OptionFncCall])
                         | None \<Rightarrow>
                            (let (res, s, evs') = getConfigByScopeID s True h
                             in (res, s, evs @ [OptionFncCall] @ evs')))))))"

text \<open>\<^verbatim>\<open>func (s *Service) AddError(err error)\<close>, without its debug log line.\<close>

definition AddError :: "Service \<Rightarrow> error \<Rightarrow> Service" where
  "AddError s err = (if optionError s \<noteq> None then s else s\<lparr>optionError := Some err\<rparr>)"

text \<open>
  The hash a lookup is made for, in the words of the specification: the hash computed
  from the scope of the supplied scoped getter, or the default hash when none is
  supplied.
\<close>

definition scoped_hash :: "ScopedGetter option \<Rightarrow> Hash" where
  "scoped_hash sg =
    (case sg of None \<Rightarrow> DefaultHash | Some g \<Rightarrow> NewHash (fst (SG_Scope g)) (snd (SG_Scope g)))"


text \<open>
  Concrete services, getters and option functions for the runs below: a service with a
  valid default entry and an empty map, the same service with a valid entry for Website
  1, a scoped getter of the default scope and one of Website 1, an option function whose
  single option records an error, and one that returns no options.
\<close>

definition default_entry :: scopedConfig where
  "default_entry = \<lparr>scopeHash = DefaultHash, valid = True, logger = Some 1\<rparr>"

definition website_entry :: scopedConfig where
  "website_entry = \<lparr>scopeHash = NewHash Website 1, valid = True, logger = None\<rparr>"

definition default_only_service :: Service where
  "default_only_service =
    \<lparr>optionError = None, defaultScopeCache = default_entry, scopeCache = []\<rparr>"

definition website_service :: Service where
  "website_service =
    \<lparr>optionError = None, defaultScopeCache = default_entry,
     scopeCache = [(NewHash Website 1, website_entry)]\<rparr>"

definition default_getter :: ScopedGetter where
  "default_getter = \<lparr>SG_Scope = (Default, 0)\<rparr>"

definition website_getter :: ScopedGetter where
  "website_getter = \<lparr>SG_Scope = (Website, 1)\<rparr>"

definition errBackend :: error where
  "errBackend = Error Unclassified ''[ctxcors] backend not reachable''"

definition failing_option_fnc :: ScopedOptionFunc where
  "failing_option_fnc = (\<lambda>sg. [\<lambda>s. AddError s errBackend])"


section \<open>Properties of the hash\<close>

subsection \<open>Arithmetic of the packed representation\<close>


lemma lowbits: "(ucast (h::32 word) :: 64 word) XOR push_bit 24 (signed_drop_bit 24 (ucast h)) = ucast (take_bit 24 h)"
  by (rule bit_word_eqI) (auto simp add: bit_simps)

lemma sint_nonneg_uint: "sint (w::64 word) = uint w - 2 ^ 64 * of_bool (bit w 63)"
proof -
  have "sint w = signed_take_bit 63 (uint w)" by (simp add: sint_uint)
  also have "\<dots> = take_bit 64 (uint w) - 2 ^ 64 * of_bool (bit (uint w) 63)"
    by (simp add: signed_take_bit_eq_take_bit_minus)
  also have "take_bit 64 (uint w) = uint w"
    using uint_lt2p [of w] by (simp add: take_bit_int_eq_self_iff)
  finally show ?thesis by (simp add: bit_uint_iff)
qed

lemma uint_low: "uint (take_bit 24 (h::32 word)) = uint h mod 2 ^ 24"
proof -
  have "uint (take_bit 24 h) = take_bit 24 (uint h)" by (rule unsigned_take_bit_eq)
  also have "\<dots> = uint h mod 2 ^ 24" by (rule take_bit_eq_mod)
  finally show ?thesis .
qed

lemma uint_high: "uint (drop_bit 24 (h::32 word)) = uint h div 2 ^ 24"
proof -
  have "uint (drop_bit 24 h) = drop_bit 24 (take_bit LENGTH(32) (uint h))"
    by (rule unsigned_drop_bit_eq)
  also have "take_bit LENGTH(32) (uint h) = uint h"
    using uint_lt2p [of h] by (simp add: take_bit_int_eq_self_iff)
  also have "drop_bit 24 (uint h) = uint h div 2 ^ 24" by (rule drop_bit_eq_div)
  finally show ?thesis .
qed

lemma sint_low: "sint (ucast (take_bit 24 (h::32 word)) :: 64 word) = uint h mod 2 ^ 24"
proof -
  have "\<not> bit (ucast (take_bit 24 h) :: 64 word) 63" by (simp add: bit_simps)
  then have "sint (ucast (take_bit 24 h) :: 64 word) = uint (ucast (take_bit 24 h) :: 64 word)"
    by (simp add: sint_nonneg_uint)
  also have "\<dots> = uint (take_bit 24 h)" by (simp add: uint_up_ucast is_up)
  finally show ?thesis by (simp only: uint_low)
qed

lemma scope_tag: "\<not> maxUint8 < drop_bit 24 (h::32 word)"
proof -
  have "uint h < 2 ^ 32" using uint_lt2p [of h] by simp
  then have "uint h div 2 ^ 24 < 256" by simp
  then have "uint (drop_bit 24 h) < 256" by (simp only: uint_high)
  then show ?thesis by (simp add: maxUint8_def word_less_def)
qed

lemma Unpack_alt: "Unpack h = (if 2 ^ 23 \<le> uint h mod 2 ^ 24 then (Absent, - 1)
   else (ucast (drop_bit 24 h), ucast (take_bit 24 h)))"
proof -
  have a: "sint MaxStoreID = 2 ^ 23 - 1" by (simp add: MaxStoreID_def)
  have b: "\<not> uint h mod 2 ^ 24 < 0" by simp
  have c: "\<not> drop_bit 24 h < 0" by simp
  show ?thesis
    unfolding Unpack_def Let_def lowbits word_sless_alt sint_low a
    using b c scope_tag [of h] by (auto simp del: drop_bit_numeral_bit0 )
qed

lemma id_range_uint:
  assumes "0 \<le>s (i::64 word)" and "i \<le>s MaxStoreID"
  shows "uint i < 2 ^ 23"
proof -
  have a: "sint MaxStoreID = 2 ^ 23 - 1" by (simp add: MaxStoreID_def)
  from assms have r: "0 \<le> sint i" "sint i \<le> 2 ^ 23 - 1"
    by (simp_all add: word_sle_eq a)
  have "uint i < 2 ^ 64" using uint_lt2p [of i] by simp
  with r(1) have "\<not> bit i 63" by (auto simp add: sint_nonneg_uint)
  with r(2) show ?thesis by (simp add: sint_nonneg_uint)
qed

lemma id_range_bits:
  assumes "uint (i::64 word) < 2 ^ 23" and "bit i n"
  shows "n < 23"
proof -
  have "take_bit 23 (uint i) = uint i"
    using assms(1) by (simp add: take_bit_int_eq_self_iff)
  moreover have "bit (uint i) n"
    using assms(2) bit_imp_le_length [of i n] by (simp add: bit_uint_iff)
  ultimately have "bit (take_bit 23 (uint i)) n" by simp
  then show ?thesis by (simp add: bit_take_bit_iff)
qed

lemma pack_low:
  assumes "uint (i::64 word) < 2 ^ 23"
  shows "take_bit 24 (push_bit 24 (ucast (s::8 word)) OR ucast i :: 32 word) = ucast i"
  by (rule bit_word_eqI) (auto simp add: bit_simps dest: id_range_bits [OF assms])

lemma pack_high:
  assumes "uint (i::64 word) < 2 ^ 23"
  shows "drop_bit 24 (push_bit 24 (ucast (s::8 word)) OR ucast i :: 32 word) = ucast s"
  by (rule bit_word_eqI) (auto simp add: bit_simps dest: id_range_bits [OF assms] bit_imp_le_length)

lemma pack_id_back:
  assumes "uint (i::64 word) < 2 ^ 23"
  shows "(ucast (ucast i :: 32 word) :: 64 word) = i"
  by (rule bit_word_eqI) (auto simp add: bit_simps dest: id_range_bits [OF assms])

lemma pack_scope_back: "(ucast (ucast (s::8 word) :: 32 word) :: 8 word) = s"
  by (rule bit_word_eqI) (auto simp add: bit_simps)

lemma Unpack_pack:
  assumes "uint (i::64 word) < 2 ^ 23"
  shows "Unpack (push_bit 24 (ucast (s::8 word)) OR ucast i) = (s, i)"
proof -
  let ?h = "push_bit 24 (ucast s) OR ucast i :: 32 word"
  have "uint ?h mod 2 ^ 24 = uint (ucast i :: 32 word)"
    by (simp only: uint_low [symmetric] pack_low [OF assms])
  also have "\<dots> = uint (ucast (ucast i :: 32 word) :: 64 word)"
    by (simp add: uint_up_ucast is_up)
  also have "\<dots> = uint i" by (simp only: pack_id_back [OF assms])
  finally have "\<not> 2 ^ 23 \<le> uint ?h mod 2 ^ 24" using assms by simp
  then show ?thesis
    by (simp only: Unpack_alt if_False pack_low [OF assms] pack_high [OF assms]
        pack_id_back [OF assms] pack_scope_back)
qed

lemma Unpack_NewHash:
  assumes "0 \<le>s i" and "i \<le>s MaxStoreID" and "Website \<le> s"
  shows "Unpack (NewHash s i) = (s, i)"
proof -
  have "\<not> MaxStoreID <s i" using assms(2) by (simp add: word_sless_alt word_sle_eq)
  moreover have "\<not> i <s 0" using assms(1) by (simp add: word_sless_alt word_sle_eq)
  moreover have "\<not> s < Website" using assms(3) by simp
  ultimately have "NewHash s i = push_bit 24 (ucast s) OR ucast i"
    by (simp add: NewHash_def)
  then show ?thesis
    by (simp only: Unpack_pack [OF id_range_uint [OF assms(1,2)]])
qed

lemma Unpack_Default: "Unpack (NewHash Default 0) = (Default, 0)"
  by (simp add: NewHash_def Unpack_def Default_def Website_def MaxStoreID_def maxUint8_def
      Absent_def word_sless_alt)

lemma Unpack_valid_inv:
  assumes "Unpack h = (s, i)" and "0 \<le>s i"
  shows "h = push_bit 24 (ucast s) OR ucast i" and "i \<le>s MaxStoreID"
proof -
  have m1: "\<not> 0 \<le>s (- 1 :: 64 word)" by (simp add: word_sle_eq)
  have c: "\<not> 2 ^ 23 \<le> uint h mod 2 ^ 24"
  proof
    assume "2 ^ 23 \<le> uint h mod 2 ^ 24"
    then have "Unpack h = (Absent, - 1)" by (simp only: Unpack_alt if_True)
    with assms m1 show False by simp
  qed
  then have u: "Unpack h = (ucast (drop_bit 24 h), ucast (take_bit 24 h))"
    by (simp only: Unpack_alt if_False)
  with assms(1) have s: "s = ucast (drop_bit 24 h)" and i: "i = ucast (take_bit 24 h)"
    by simp_all
  show "h = push_bit 24 (ucast s) OR ucast i"
    unfolding s i by (rule bit_word_eqI) (auto simp add: bit_simps)
  have "sint i = uint h mod 2 ^ 24" unfolding i by (rule sint_low)
  moreover have "sint MaxStoreID = 2 ^ 23 - 1" by (simp add: MaxStoreID_def)
  ultimately show "i \<le>s MaxStoreID" using c by (simp add: word_sle_eq)
qed

lemma Unpack_valid_NewHash:
  assumes "Unpack h = (s, i)" and "0 \<le>s i" and "Website \<le> s"
  shows "h = NewHash s i"
proof -
  note r = Unpack_valid_inv [OF assms(1,2)]
  have "\<not> MaxStoreID <s i" using r(2) by (simp add: word_sless_alt word_sle_eq)
  moreover have "\<not> i <s 0" using assms(2) by (simp add: word_sless_alt word_sle_eq)
  moreover have "\<not> s < Website" using assms(3) by simp
  ultimately have "NewHash s i = push_bit 24 (ucast s) OR ucast i"
    by (simp add: NewHash_def)
  with r(1) show ?thesis by simp
qed

lemma Unpack_Default_inv:
  assumes "Unpack h = (Default, 0)"
  shows "h = DefaultHash"
proof -
  have "h = push_bit 24 (ucast Default) OR ucast (0 :: 64 word)"
    by (rule Unpack_valid_inv(1) [OF assms]) (simp add: word_sle_eq)
  then show ?thesis by (simp add: DefaultHash_def)
qed

lemma DefaultHash_Unpack: "Unpack DefaultHash = (Default, 0)"
  by (simp add: DefaultHash_def Unpack_def Default_def MaxStoreID_def maxUint8_def
      Absent_def word_sless_alt)

lemma ValidParent_chains_aux:
  "ValidParent c p \<longleftrightarrow>
     (p = DefaultHash \<and> c = DefaultHash) \<or>
     (p = DefaultHash \<and> (\<exists>i. 0 \<le>s i \<and> i \<le>s MaxStoreID \<and> c = NewHash Website i)) \<or>
     (\<exists>i j. 0 \<le>s i \<and> i \<le>s MaxStoreID \<and> 0 \<le>s j \<and> j \<le>s MaxStoreID \<and>
        p = NewHash Website i \<and> c = NewHash Store j)"
  (is "?L \<longleftrightarrow> ?A \<or> ?B \<or> ?C")
proof
  assume ?L
  obtain ps pi where p: "Unpack p = (ps, pi)" by (cases "Unpack p")
  obtain cs ci where c: "Unpack c = (cs, ci)" by (cases "Unpack c")
  from \<open>?L\<close> have "(ps = Default \<and> pi = 0 \<and> cs = Default \<and> ci = 0) \<or>
      (ps = Default \<and> pi = 0 \<and> cs = Website \<and> 0 \<le>s ci) \<or>
      (ps = Website \<and> 0 \<le>s pi \<and> cs = Store \<and> 0 \<le>s ci)"
    unfolding ValidParent_def p c by simp
  then consider
      (a) "ps = Default" "pi = 0" "cs = Default" "ci = 0"
    | (b) "ps = Default" "pi = 0" "cs = Website" "0 \<le>s ci"
    | (c) "ps = Website" "0 \<le>s pi" "cs = Store" "0 \<le>s ci"
    by blast
  then show "?A \<or> ?B \<or> ?C"
  proof cases
    case a
    with p c have "p = DefaultHash" "c = DefaultHash"
      by (simp_all add: Unpack_Default_inv)
    then show ?thesis by simp
  next
    case b
    with p have "p = DefaultHash" by (simp add: Unpack_Default_inv)
    moreover from c b have "c = NewHash Website ci"
      by (intro Unpack_valid_NewHash) simp_all
    moreover from c b have "ci \<le>s MaxStoreID" by (intro Unpack_valid_inv(2)) simp_all
    ultimately have ?B using b(4) by blast
    then show ?thesis by simp
  next
    case c': c
    from p c' have "p = NewHash Website pi"
      by (intro Unpack_valid_NewHash) simp_all
    moreover from c c' have "c = NewHash Store ci"
      by (intro Unpack_valid_NewHash) (simp_all add: Website_def Store_def)
    moreover from p c' have "pi \<le>s MaxStoreID" by (intro Unpack_valid_inv(2)) simp_all
    moreover from c c' have "ci \<le>s MaxStoreID" by (intro Unpack_valid_inv(2)) simp_all
    ultimately have ?C using c'(2,4) by blast
    then show ?thesis by simp
  qed
next
  assume "?A \<or> ?B \<or> ?C"
  then show ?L
  proof (elim disjE)
    assume ?A
    then show ?L by (simp add: ValidParent_def DefaultHash_Unpack)
  next
    assume ?B
    then obtain i where i: "0 \<le>s i" "i \<le>s MaxStoreID" "c = NewHash Website i" "p = DefaultHash"
      by blast
    have "Unpack c = (Website, i)" unfolding i(3) by (rule Unpack_NewHash [OF i(1,2)]) simp
    then show ?L using i(1) by (simp add: ValidParent_def DefaultHash_Unpack i(4))
  next
    assume ?C
    then obtain i j where ij: "0 \<le>s i" "i \<le>s MaxStoreID" "0 \<le>s j" "j \<le>s MaxStoreID"
        "p = NewHash Website i" "c = NewHash Store j"
      by blast
    have "Unpack p = (Website, i)" unfolding ij(5) by (rule Unpack_NewHash [OF ij(1,2)]) simp
    moreover have "Unpack c = (Store, j)" unfolding ij(6)
      by (rule Unpack_NewHash [OF ij(3,4)]) (simp add: Website_def Store_def)
    ultimately show ?L using ij(1,3) by (simp add: ValidParent_def)
  qed
qed

lemma overflow_unpack: "2 ^ 23 \<le> uint h mod 2 ^ 24 \<Longrightarrow> Unpack h = (Absent, - 1)"
  by (simp only: Unpack_alt if_True)

lemma NewHash_overflow: "MaxStoreID <s i \<Longrightarrow> NewHash s i = 0"
  by (simp add: NewHash_def)

lemma Unpack_zero: "Unpack 0 = (Absent, 0)"
  by (simp add: Unpack_def MaxStoreID_def maxUint8_def Absent_def word_sless_alt)

lemma ValidParent_self:
  assumes "ValidParent c c"
  shows "c = DefaultHash"
proof -
  obtain cs ci where c: "Unpack c = (cs, ci)" by (cases "Unpack c")
  from assms have "cs = Default \<and> ci = 0"
    unfolding ValidParent_def c by (auto simp add: Default_def Website_def Store_def)
  with c show ?thesis by (simp add: Unpack_Default_inv)
qed

lemma ValidParent_invalid:
  assumes "Unpack p = (Absent, - 1) \<or> Unpack c = (Absent, - 1)"
  shows "\<not> ValidParent c p"
proof -
  have m1: "\<not> 0 \<le>s (- 1 :: 64 word)" by (simp add: word_sle_eq)
  obtain ps pi where p: "Unpack p = (ps, pi)" by (cases "Unpack p")
  obtain cs ci where c: "Unpack c = (cs, ci)" by (cases "Unpack c")
  from assms p c have "(ps = Absent \<and> pi = - 1) \<or> (cs = Absent \<and> ci = - 1)" by simp
  then show ?thesis
    unfolding ValidParent_def p c using m1
    by (auto simp add: Default_def Website_def Store_def Absent_def)
qed

subsection \<open>The claims about the hash\<close>

text \<open>
  Claim C5.  For every valid pair of a scope and an identifier in \<open>[0, MaxStoreID]\<close>
  (Default pairs with 0 only; Website and Store pair with every identifier of the range),
  unpacking the hash that \<open>NewHash\<close> builds returns exactly that pair.
\<close>

theorem hash_round_trip:
  assumes "(s = Default \<and> i = 0) \<or> ((s = Website \<or> s = Store) \<and> 0 \<le>s i \<and> i \<le>s MaxStoreID)"
  shows "Unpack (NewHash s i) = (s, i)"
proof -
  from assms consider
      (dflt) "s = Default" "i = 0"
    | (bound) "Website \<le> s" "0 \<le>s i" "i \<le>s MaxStoreID"
    by (auto simp add: Website_def Store_def)
  then show ?thesis
  proof cases
    case dflt
    then show ?thesis by (simp add: Unpack_Default)
  next
    case bound
    show ?thesis using bound(2,3,1) by (rule Unpack_NewHash)
  qed
qed

theorem hash_round_trip_witness:
  "((Store = Default \<and> (33 :: int64) = 0) \<or>
    ((Store = Website \<or> Store = Store) \<and> 0 \<le>s (33 :: int64) \<and> 33 \<le>s MaxStoreID)) \<and>
   Unpack (NewHash Store 33) = (Store, 33)"
proof -
  have h: "(Store = Default \<and> (33 :: int64) = 0) \<or>
    ((Store = Website \<or> Store = Store) \<and> 0 \<le>s (33 :: int64) \<and> 33 \<le>s MaxStoreID)"
    by (simp add: word_sle_eq MaxStoreID_def)
  show ?thesis using h hash_round_trip [OF h] by simp
qed

text \<open>
  Claim C6, as stated: \<open>NewHash(Website, MaxStoreID+1)\<close> reports an Absent scope with
  identifier -1.  It does not: \<open>NewHash\<close> returns the zero hash, which unpacks as Absent
  with identifier 0, and whose \<open>ID\<close> is 0.
\<close>

theorem hash_overflow_counterexample:
  "Unpack (NewHash Website (MaxStoreID + 1)) = (Absent, 0) \<and>
   ID (NewHash Website (MaxStoreID + 1)) \<noteq> - 1"
  by (simp add: NewHash_def Unpack_def ID_def Default_def Website_def MaxStoreID_def
      maxUint8_def Absent_def word_sless_alt)

text \<open>
  Claim C6, amended.  \<open>NewHash\<close> with an identifier above \<open>MaxStoreID\<close>, as in
  \<open>NewHash(Website, MaxStoreID+1)\<close>, returns the zero hash, which unpacks as the Absent
  scope with identifier 0; \<open>Unpack\<close> of a raw hash whose embedded identifier (its low 24
  bits) exceeds \<open>MaxStoreID\<close> reports the Absent scope with identifier -1.  Neither wraps
  or truncates the identifier.
\<close>

theorem hash_overflow:
  "(MaxStoreID <s i \<longrightarrow> NewHash s i = 0 \<and> Unpack (NewHash s i) = (Absent, 0)) \<and>
   MaxStoreID <s MaxStoreID + 1 \<and>
   (sint MaxStoreID < uint (take_bit 24 h) \<longrightarrow> Unpack h = (Absent, - 1))"
proof (intro conjI impI)
  assume "MaxStoreID <s i"
  then show "NewHash s i = 0" by (rule NewHash_overflow)
  then show "Unpack (NewHash s i) = (Absent, 0)" by (simp only: Unpack_zero)
next
  show "MaxStoreID <s MaxStoreID + 1" by (simp add: MaxStoreID_def word_sless_alt)
next
  assume "sint MaxStoreID < uint (take_bit 24 h)"
  moreover have "sint MaxStoreID = 2 ^ 23 - 1" by (simp add: MaxStoreID_def)
  moreover have "uint (take_bit 24 h) = uint h mod 2 ^ 24" by (rule uint_low)
  ultimately have "2 ^ 23 \<le> uint h mod 2 ^ 24" by simp
  then show "Unpack h = (Absent, - 1)" by (rule overflow_unpack)
qed

theorem hash_overflow_witness:
  "MaxStoreID <s MaxStoreID + 1 \<and>
   NewHash Website (MaxStoreID + 1) = 0 \<and>
   Unpack (NewHash Website (MaxStoreID + 1)) = (Absent, 0) \<and>
   sint MaxStoreID < uint (take_bit 24 (0x02800000 :: Hash)) \<and>
   Unpack 0x02800000 = (Absent, - 1)"
proof -
  have a: "MaxStoreID <s MaxStoreID + 1" by (simp add: MaxStoreID_def word_sless_alt)
  have b: "sint MaxStoreID < uint (take_bit 24 (0x02800000 :: Hash))"
    by (simp add: MaxStoreID_def)
  show ?thesis
    using a b hash_overflow [of "MaxStoreID + 1" Website "0x02800000"] by blast
qed

text \<open>
  Claim C7.  \<open>ValidParent\<close> holds for exactly three chains of a parent and a child hash:
  Default/0 to Default/0, Default/0 to Website with any identifier of the valid range,
  and Website to Store with any identifiers of the valid range.  It fails for every other
  pair, in particular for every self-pair other than Default/Default and whenever one of
  the two hashes unpacks as invalid.
\<close>

theorem valid_parent_chains:
  "(ValidParent c p \<longleftrightarrow>
     (p = DefaultHash \<and> c = DefaultHash) \<or>
     (p = DefaultHash \<and> (\<exists>i. 0 \<le>s i \<and> i \<le>s MaxStoreID \<and> c = NewHash Website i)) \<or>
     (\<exists>i j. 0 \<le>s i \<and> i \<le>s MaxStoreID \<and> 0 \<le>s j \<and> j \<le>s MaxStoreID \<and>
        p = NewHash Website i \<and> c = NewHash Store j)) \<and>
   (c \<noteq> DefaultHash \<longrightarrow> \<not> ValidParent c c) \<and>
   (Unpack p = (Absent, - 1) \<or> Unpack c = (Absent, - 1) \<longrightarrow> \<not> ValidParent c p)"
  using ValidParent_chains_aux [of c p] ValidParent_self [of c] ValidParent_invalid [of p c]
  by blast

theorem valid_parent_chains_witness:
  "ValidParent (NewHash Store 5) (NewHash Website 3) \<and>
   NewHash Store 5 \<noteq> DefaultHash \<and> \<not> ValidParent (NewHash Store 5) (NewHash Store 5) \<and>
   Unpack 0x02800000 = (Absent, - 1) \<and> \<not> ValidParent (NewHash Store 5) 0x02800000"
proof -
  have r: "0 \<le>s (3 :: int64) \<and> 3 \<le>s MaxStoreID \<and> 0 \<le>s (5 :: int64) \<and> 5 \<le>s MaxStoreID"
    by (simp add: word_sle_eq MaxStoreID_def)
  have d: "NewHash Store 5 \<noteq> DefaultHash"
    by (simp add: NewHash_def DefaultHash_def Store_def Default_def Website_def MaxStoreID_def
        word_sless_alt)
  have u: "Unpack 0x02800000 = (Absent, - 1)"
    by (simp add: Unpack_def MaxStoreID_def maxUint8_def Absent_def word_sless_alt)
  from r have "ValidParent (NewHash Store 5) (NewHash Website 3)"
    using valid_parent_chains [of "NewHash Store 5" "NewHash Website 3"] by blast
  moreover from d have "\<not> ValidParent (NewHash Store 5) (NewHash Store 5)"
    using valid_parent_chains [of "NewHash Store 5" "NewHash Store 5"] by blast
  moreover from u have "\<not> ValidParent (NewHash Store 5) 0x02800000"
    using valid_parent_chains [of "NewHash Store 5" "0x02800000"] by blast
  ultimately show ?thesis using d u by blast
qed

text \<open>
  Claim C8, as stated: \<open>EqualScope\<close> is false whenever either hash is Absent or invalid,
  a hash whose identifier part exceeds \<open>MaxStoreID\<close> included.  It is not: the raw hash
  \<open>0x02800000\<close> carries the Website tag and an identifier part above \<open>MaxStoreID\<close>, it
  unpacks as invalid, and \<open>EqualScope\<close> of it with itself is true.
\<close>

theorem equal_scope_counterexample:
  "sint MaxStoreID < uint (take_bit 24 (0x02800000 :: Hash)) \<and>
   Unpack 0x02800000 = (Absent, - 1) \<and> EqualScope 0x02800000 0x02800000"
  by (simp add: EqualScope_def Unpack_def MaxStoreID_def maxUint8_def Absent_def
      word_sless_alt)

text \<open>
  Claim C8, amended.  \<open>EqualScope\<close> is false whenever the scope of either hash is Absent,
  even when the two raw 32-bit patterns are identical; it reads the scope tags only.
\<close>

theorem equal_scope_absent:
  assumes "Hash_Scope h = Absent \<or> Hash_Scope other = Absent"
  shows "\<not> EqualScope h other"
proof -
  have a: "\<And>x::32 word. (ucast (drop_bit 24 x) :: 8 word) = 0 \<Longrightarrow> drop_bit 24 x = 0"
  proof -
    fix x :: "32 word"
    assume z: "(ucast (drop_bit 24 x) :: 8 word) = 0"
    show "drop_bit 24 x = 0"
    proof (rule bit_word_eqI)
      fix n assume "n < LENGTH(32)"
      from z have "bit (ucast (drop_bit 24 x) :: 8 word) n = bit (0 :: 8 word) n" by simp
      then show "bit (drop_bit 24 x) n = bit (0 :: 32 word) n"
        by (auto simp add: bit_simps dest: bit_imp_le_length)
    qed
  qed
  from assms have "drop_bit 24 h = 0 \<or> drop_bit 24 other = 0"
    using scope_tag [of h] scope_tag [of other] a [of h] a [of other]
    by (auto simp add: Hash_Scope_def Absent_def Let_def simp del: drop_bit_numeral_bit0 split: if_splits)
  then show ?thesis
    by (auto simp add: EqualScope_def Let_def simp del: drop_bit_numeral_bit0)
qed

theorem equal_scope_absent_witness:
  "(Hash_Scope 0 = Absent \<or> Hash_Scope 0 = Absent) \<and> \<not> EqualScope 0 0"
proof -
  have h: "Hash_Scope 0 = Absent \<or> Hash_Scope 0 = Absent"
    by (simp add: Hash_Scope_def Absent_def maxUint8_def)
  show ?thesis using h equal_scope_absent [OF h] by simp
qed

section \<open>Properties of the scoped resolver\<close>

subsection \<open>The common part of the six accessors\<close>

lemma IsNotFound_Some: "IsNotFound err \<Longrightarrow> err \<noteq> None"
  by (cases err) (simp_all add: IsNotFound_def)

lemma Bind_simps:
  "BindWebsite (BindStore p a) b = BindWebsite p b"
  "(BindStore p a)\<lparr>ScopeHash := h\<rparr> = p\<lparr>ScopeHash := h\<rparr>"
  "(BindWebsite p b)\<lparr>ScopeHash := h\<rparr> = p\<lparr>ScopeHash := h\<rparr>"
  "ScopeHash (BindStore p a) = NewHash Store a"
  "ScopeHash (BindWebsite p b) = NewHash Website b"
  by (simp_all add: BindStore_def BindWebsite_def)

lemma Scoped_resolve:
  "Scoped_Byte ss r s = (case cfgpath_New r of
       Inl err \<Rightarrow> ((None, 0, Some (Wrapf err ''[config] Byte. Route %q'' r)), [])
     | Inr p \<Rightarrow> resolve (Get_Byte (Root ss)) ss p s)"
  "Scoped_String ss r s = (case cfgpath_New r of
       Inl err \<Rightarrow> (('''', 0, Some (Wrapf err ''[config] String. Route %q'' r)), [])
     | Inr p \<Rightarrow> resolve (Get_String (Root ss)) ss p s)"
  "Scoped_Bool ss r s = (case cfgpath_New r of
       Inl err \<Rightarrow> ((False, 0, Some (Wrapf err ''[config] Bool. Route %q'' r)), [])
     | Inr p \<Rightarrow> resolve (Get_Bool (Root ss)) ss p s)"
  "Scoped_Float64 ss r s = (case cfgpath_New r of
       Inl err \<Rightarrow> ((0, 0, Some (Wrapf err ''[config] Float64. Route %q'' r)), [])
     | Inr p \<Rightarrow> resolve (Get_Float64 (Root ss)) ss p s)"
  "Scoped_Int ss r s = (case cfgpath_New r of
       Inl err \<Rightarrow> ((0, 0, Some (Wrapf err ''[config] Int. Route %q'' r)), [])
     | Inr p \<Rightarrow> resolve (Get_Int (Root ss)) ss p s)"
  "Scoped_Time ss r s = (case cfgpath_New r of
       Inl err \<Rightarrow> ((zeroTime, 0, Some (Wrapf err ''[config] Time. Route %q'' r)), [])
     | Inr p \<Rightarrow> resolve (Get_Time (Root ss)) ss p s)"
  unfolding Scoped_Byte_def Scoped_String_def Scoped_Bool_def Scoped_Float64_def
    Scoped_Int_def Scoped_Time_def resolve_def
  by (rule refl)+

lemma resolve_default:
  assumes "only_at_default get p (WebsiteID ss) (StoreID ss) v"
  shows "fst (resolve get ss p s) = (v, DefaultHash, None)"
  using assms
  by (auto simp add: resolve_def only_at_default_def Let_def Bind_simps split_beta
      dest: IsNotFound_Some)


lemma not_allowed_store_website: "\<not> isAllowedStore ss (Website # rest)"
  by (simp add: isAllowedStore_def Has_def PermStoreReverse_def Website_def Absent_def Store_def bit_simps)

lemma allowed_website_website: "isAllowedWebsite ss (Website # rest) = (0 <s WebsiteID ss)"
  by (simp add: isAllowedWebsite_def Has_def PermWebsiteReverse_def Website_def Absent_def Store_def bit_simps)

lemma resolve_website:
  "resolve get ss p (Website # rest) = website_then_default get (WebsiteID ss) p"
  by (auto simp add: resolve_def website_then_default_def not_allowed_store_website
      allowed_website_website Let_def Bind_simps split_beta dest: IsNotFound_Some)


lemma NewHash_cases:
  "NewHash s i = 0 \<or> (\<exists>j::int64. uint j < 2 ^ 23 \<and> NewHash s i = push_bit 24 (ucast s) OR ucast j)"
proof (cases "MaxStoreID <s i \<or> (Default < s \<and> i <s 0)")
  case True
  then show ?thesis by (simp add: NewHash_def)
next
  case False
  show ?thesis
  proof (cases "s < Website")
    case True
    with False have "NewHash s i = push_bit 24 (ucast s) OR ucast (0 :: int64)"
      by (auto simp add: NewHash_def)
    moreover have "uint (0 :: int64) < 2 ^ 23" by simp
    ultimately show ?thesis by blast
  next
    case w: False
    then have "Default < s"
      unfolding Website_def Default_def word_less_nat_alt by simp
    with False have r: "0 \<le>s i" "i \<le>s MaxStoreID"
      by (simp_all add: word_sless_alt word_sle_eq)
    from False w have "NewHash s i = push_bit 24 (ucast s) OR ucast i"
      by (auto simp add: NewHash_def)
    with id_range_uint [OF r] show ?thesis by blast
  qed
qed

lemma Hash_Scope_pack:
  assumes "uint (i::64 word) < 2 ^ 23"
  shows "Hash_Scope (push_bit 24 (ucast (s::8 word)) OR ucast i) = s"
  using scope_tag [of "push_bit 24 (ucast s) OR ucast i"]
  by (simp only: Hash_Scope_def Let_def pack_high [OF assms] pack_scope_back) simp

lemma Hash_Scope_NewHash: "Hash_Scope (NewHash s i) = s \<or> Hash_Scope (NewHash s i) = Absent"
  using NewHash_cases [of s i]
proof (elim disjE exE conjE)
  assume "NewHash s i = 0"
  then show ?thesis by (simp add: Hash_Scope_def Absent_def maxUint8_def)
next
  fix j :: int64 assume "uint j < 2 ^ 23" and "NewHash s i = push_bit 24 (ucast s) OR ucast j"
  then show ?thesis by (simp only: Hash_Scope_pack) simp
qed

lemma Hash_Scope_Default: "Hash_Scope DefaultHash = Default"
  by (simp add: Hash_Scope_def DefaultHash_def Default_def maxUint8_def)

lemma website_then_default_calls:
  assumes "q \<in> set (snd (website_then_default get wid p))"
  shows "Hash_Scope (ScopeHash q) \<noteq> Store"
proof -
  from assms have "ScopeHash q = NewHash Website wid \<or> ScopeHash q = DefaultHash"
    by (auto simp add: website_then_default_def Let_def Bind_simps split: if_splits)
  then show ?thesis
    using Hash_Scope_NewHash [of Website wid]
    by (auto simp add: Hash_Scope_Default Store_def Website_def Default_def Absent_def)
qed

lemma cfgpath_New_error:
  assumes "cfgpath_New r = Inl e"
  shows "Cause e = NotValid"
  using assms by (auto simp add: cfgpath_New_def split: if_splits)

lemma valid_route_abc: "cfgpath_New ''a/b/c'' = Inr \<lparr>Route = ''a/b/c'', ScopeHash = DefaultHash\<rparr>"
  by (simp add: cfgpath_New_def valid_route_def)

lemma invalid_route_catalog:
  "cfgpath_New ''catalog'' = Inl (Error NotValid ''[cfgpath] Route is not valid'')"
  by (simp add: cfgpath_New_def valid_route_def)

lemma concrete_hashes:
  "NewHash Store 1 = 0x04000001" "NewHash Website 1 = 0x02000001" "DefaultHash = 0x01000000"
  by (simp_all add: NewHash_def DefaultHash_def Store_def Website_def Default_def
      MaxStoreID_def word_sless_alt)

lemma positive_one: "0 <s (1 :: int64)"
  by (simp add: word_sless_alt)

lemma DefaultHash_not_bound: "DefaultHash \<noteq> NewHash Store i \<and> DefaultHash \<noteq> NewHash Website j"
proof -
  have "Hash_Scope (NewHash Store i) \<noteq> Default" "Hash_Scope (NewHash Website j) \<noteq> Default"
    using Hash_Scope_NewHash [of Store i] Hash_Scope_NewHash [of Website j]
    by (auto simp add: Store_def Website_def Default_def Absent_def)
  then show ?thesis using Hash_Scope_Default by metis
qed

subsection \<open>The claims about the scoped resolver\<close>

text \<open>
  Claim C1.  For every well-formed route and every scoped resolver with a positive store
  and a positive website identifier, whatever the scope restriction: if the root getter
  reports a NotFound error at the Store-bound and at the Website-bound path and holds a
  value at the default scope, each of the six typed accessors returns that value
  together with the constant \<open>DefaultHash\<close> and no error; \<open>DefaultHash\<close> is scope Default
  with identifier 0, and is neither the Store hash nor the Website hash of the resolver.
\<close>

theorem default_fallback:
  assumes "cfgpath_New r = Inr p" and "0 <s StoreID ss" and "0 <s WebsiteID ss"
  shows "(only_at_default (Get_Byte (Root ss)) p (WebsiteID ss) (StoreID ss) vb \<longrightarrow>
      fst (Scoped_Byte ss r s) = (vb, DefaultHash, None)) \<and>
   (only_at_default (Get_String (Root ss)) p (WebsiteID ss) (StoreID ss) vs \<longrightarrow>
      fst (Scoped_String ss r s) = (vs, DefaultHash, None)) \<and>
   (only_at_default (Get_Bool (Root ss)) p (WebsiteID ss) (StoreID ss) vo \<longrightarrow>
      fst (Scoped_Bool ss r s) = (vo, DefaultHash, None)) \<and>
   (only_at_default (Get_Float64 (Root ss)) p (WebsiteID ss) (StoreID ss) vf \<longrightarrow>
      fst (Scoped_Float64 ss r s) = (vf, DefaultHash, None)) \<and>
   (only_at_default (Get_Int (Root ss)) p (WebsiteID ss) (StoreID ss) vi \<longrightarrow>
      fst (Scoped_Int ss r s) = (vi, DefaultHash, None)) \<and>
   (only_at_default (Get_Time (Root ss)) p (WebsiteID ss) (StoreID ss) vt \<longrightarrow>
      fst (Scoped_Time ss r s) = (vt, DefaultHash, None)) \<and>
   Unpack DefaultHash = (Default, 0) \<and>
   DefaultHash \<noteq> NewHash Store (StoreID ss) \<and> DefaultHash \<noteq> NewHash Website (WebsiteID ss)"
  using assms(1)
  by (simp add: Scoped_resolve resolve_default DefaultHash_Unpack DefaultHash_not_bound)

theorem default_fallback_witness:
  "cfgpath_New ''a/b/c'' = Inr \<lparr>Route = ''a/b/c'', ScopeHash = DefaultHash\<rparr> \<and>
   0 <s StoreID (NewScoped default_only_root 1 1) \<and>
   0 <s WebsiteID (NewScoped default_only_root 1 1) \<and>
   fst (Scoped_Byte (NewScoped default_only_root 1 1) ''a/b/c'' []) =
     (Some [71, 111], DefaultHash, None) \<and>
   fst (Scoped_String (NewScoped default_only_root 1 1) ''a/b/c'' []) =
     (''http://cs.io'', DefaultHash, None) \<and>
   fst (Scoped_Bool (NewScoped default_only_root 1 1) ''a/b/c'' []) =
     (True, DefaultHash, None) \<and>
   fst (Scoped_Float64 (NewScoped default_only_root 1 1) ''a/b/c'' []) =
     (0x400921F9F01B866E, DefaultHash, None) \<and>
   fst (Scoped_Int (NewScoped default_only_root 1 1) ''a/b/c'' []) =
     (2016, DefaultHash, None) \<and>
   fst (Scoped_Time (NewScoped default_only_root 1 1) ''a/b/c'' []) =
     (zeroTime\<lparr>ext := 1\<rparr>, DefaultHash, None)"
proof -
  let ?ss = "NewScoped default_only_root 1 1"
  let ?p = "\<lparr>Route = ''a/b/c'', ScopeHash = DefaultHash\<rparr>"
  have ids: "0 <s StoreID ?ss" "0 <s WebsiteID ?ss"
    by (simp_all add: NewScoped_def positive_one)
  have root:
    "only_at_default (Get_Byte (Root ?ss)) ?p (WebsiteID ?ss) (StoreID ?ss) (Some [71, 111])"
    "only_at_default (Get_String (Root ?ss)) ?p (WebsiteID ?ss) (StoreID ?ss) ''http://cs.io''"
    "only_at_default (Get_Bool (Root ?ss)) ?p (WebsiteID ?ss) (StoreID ?ss) True"
    "only_at_default (Get_Float64 (Root ?ss)) ?p (WebsiteID ?ss) (StoreID ?ss) 0x400921F9F01B866E"
    "only_at_default (Get_Int (Root ?ss)) ?p (WebsiteID ?ss) (StoreID ?ss) 2016"
    "only_at_default (Get_Time (Root ?ss)) ?p (WebsiteID ?ss) (StoreID ?ss) (zeroTime\<lparr>ext := 1\<rparr>)"
    by (simp_all add: only_at_default_def NewScoped_def default_only_root_def Bind_simps
        concrete_hashes IsNotFound_def errKeyNotFound_def)
  show ?thesis
    using valid_route_abc ids root
      default_fallback [OF valid_route_abc ids, of "Some [71, 111]" "[]" "''http://cs.io''"
        True "0x400921F9F01B866E" 2016 "zeroTime\<lparr>ext := 1\<rparr>"]
    by blast
qed



text \<open>
  Claim C3.  For every Store-scoped resolver (positive store identifier), on a
  well-formed route, a call of a typed accessor with the restriction Website is not
  permitted its Store attempt, does exactly the resolution that goes to the Website
  attempt (when the website identifier is positive) and then to Default, and asks the
  root getter for no path bound to the Store scope.
\<close>

theorem website_restriction_skips_store:
  assumes "0 <s StoreID ss" and "cfgpath_New r = Inr p"
  shows "\<not> isAllowedStore ss (Website # rest) \<and>
   Scoped_Byte ss r (Website # rest) =
     website_then_default (Get_Byte (Root ss)) (WebsiteID ss) p \<and>
   (\<forall>q \<in> set (snd (Scoped_Byte ss r (Website # rest))). Hash_Scope (ScopeHash q) \<noteq> Store) \<and>
   Scoped_String ss r (Website # rest) =
     website_then_default (Get_String (Root ss)) (WebsiteID ss) p \<and>
   (\<forall>q \<in> set (snd (Scoped_String ss r (Website # rest))). Hash_Scope (ScopeHash q) \<noteq> Store) \<and>
   Scoped_Bool ss r (Website # rest) =
     website_then_default (Get_Bool (Root ss)) (WebsiteID ss) p \<and>
   (\<forall>q \<in> set (snd (Scoped_Bool ss r (Website # rest))). Hash_Scope (ScopeHash q) \<noteq> Store) \<and>
   Scoped_Float64 ss r (Website # rest) =
     website_then_default (Get_Float64 (Root ss)) (WebsiteID ss) p \<and>
   (\<forall>q \<in> set (snd (Scoped_Float64 ss r (Website # rest))). Hash_Scope (ScopeHash q) \<noteq> Store) \<and>
   Scoped_Int ss r (Website # rest) =
     website_then_default (Get_Int (Root ss)) (WebsiteID ss) p \<and>
   (\<forall>q \<in> set (snd (Scoped_Int ss r (Website # rest))). Hash_Scope (ScopeHash q) \<noteq> Store) \<and>
   Scoped_Time ss r (Website # rest) =
     website_then_default (Get_Time (Root ss)) (WebsiteID ss) p \<and>
   (\<forall>q \<in> set (snd (Scoped_Time ss r (Website # rest))). Hash_Scope (ScopeHash q) \<noteq> Store)"
  using assms(2)
  by (simp add: Scoped_resolve resolve_website not_allowed_store_website
      website_then_default_calls)

theorem website_restriction_skips_store_witness:
  "0 <s StoreID (NewScoped default_only_root 1 1) \<and>
   cfgpath_New ''a/b/c'' = Inr \<lparr>Route = ''a/b/c'', ScopeHash = DefaultHash\<rparr> \<and>
   \<not> isAllowedStore (NewScoped default_only_root 1 1) [Website] \<and>
   Scoped_String (NewScoped default_only_root 1 1) ''a/b/c'' [Website] =
     ((''http://cs.io'', 0x01000000, None),
      [\<lparr>Route = ''a/b/c'', ScopeHash = 0x02000001\<rparr>,
       \<lparr>Route = ''a/b/c'', ScopeHash = 0x01000000\<rparr>]) \<and>
   map (\<lambda>q. Hash_Scope (ScopeHash q))
     (snd (Scoped_String (NewScoped default_only_root 1 1) ''a/b/c'' [Website])) =
     [Website, Default]"
proof -
  let ?ss = "NewScoped default_only_root 1 1"
  let ?p = "\<lparr>Route = ''a/b/c'', ScopeHash = DefaultHash\<rparr>"
  have sid: "0 <s StoreID ?ss" by (simp add: NewScoped_def positive_one)
  have w: "website_then_default (Get_String (Root ?ss)) (WebsiteID ?ss) ?p =
     ((''http://cs.io'', 0x01000000, None),
      [\<lparr>Route = ''a/b/c'', ScopeHash = 0x02000001\<rparr>,
       \<lparr>Route = ''a/b/c'', ScopeHash = 0x01000000\<rparr>])"
    by (simp add: website_then_default_def NewScoped_def default_only_root_def Bind_simps
        BindWebsite_def concrete_hashes IsNotFound_def errKeyNotFound_def positive_one)
  have t: "Hash_Scope 0x02000001 = Website" "Hash_Scope 0x01000000 = Default"
    by (simp_all add: Hash_Scope_def maxUint8_def Website_def Default_def)
  show ?thesis
    using sid valid_route_abc w t
      website_restriction_skips_store [OF sid valid_route_abc, of "[]"]
    by simp
qed

text \<open>
  Claim C4.  For every malformed route, one the path constructor rejects, each of the six
  typed accessors returns the zero value of its type, the hash 0 and the constructor's
  error wrapped with the accessor's message, and makes no call to the root getter; the
  wrapped error is a NotValid error and not a NotFound error.
\<close>

theorem malformed_route_short_circuit:
  assumes "cfgpath_New r = Inl e"
  shows "Scoped_Byte ss r s = ((None, 0, Some (Wrapf e ''[config] Byte. Route %q'' r)), []) \<and>
   Scoped_String ss r s = (('''', 0, Some (Wrapf e ''[config] String. Route %q'' r)), []) \<and>
   Scoped_Bool ss r s = ((False, 0, Some (Wrapf e ''[config] Bool. Route %q'' r)), []) \<and>
   Scoped_Float64 ss r s = ((0, 0, Some (Wrapf e ''[config] Float64. Route %q'' r)), []) \<and>
   Scoped_Int ss r s = ((0, 0, Some (Wrapf e ''[config] Int. Route %q'' r)), []) \<and>
   Scoped_Time ss r s = ((zeroTime, 0, Some (Wrapf e ''[config] Time. Route %q'' r)), []) \<and>
   IsNotValid (Some (Wrapf e f a)) \<and> \<not> IsNotFound (Some (Wrapf e f a))"
  using assms cfgpath_New_error [OF assms]
  by (simp add: Scoped_resolve IsNotValid_def IsNotFound_def Wrapf_def)

theorem malformed_route_short_circuit_witness:
  "cfgpath_New ''catalog'' = Inl (Error NotValid ''[cfgpath] Route is not valid'') \<and>
   Scoped_String (NewScoped default_only_root 1 1) ''catalog'' [] =
     (('''', 0, Some (Wrapf (Error NotValid ''[cfgpath] Route is not valid'')
        ''[config] String. Route %q'' ''catalog'')), []) \<and>
   IsNotValid (snd (snd (fst (Scoped_String (NewScoped default_only_root 1 1) ''catalog'' []))))"
  using invalid_route_catalog
    malformed_route_short_circuit [OF invalid_route_catalog,
      of "NewScoped default_only_root 1 1" "[]" "''[config] String. Route %q''" "''catalog''"]
  by simp

section \<open>Properties of the scoped configuration cache\<close>

lemma getScopedConfig_absent:
  assumes "map_of (scopeCache s) h = None"
  shows "getScopedConfig s h = ((emptyConfig, False), s, [MapLookup h])"
  using assms by (simp add: getScopedConfig_def)


lemma getConfigByScopeID_absent:
  assumes "map_of (scopeCache s) h = None"
  shows "getConfigByScopeID s fb h =
    ((if fb then (defaultScopeCache s,
                  if IsValid (defaultScopeCache s) then None else Some errConfigNotFound)
      else (emptyConfig, Some errConfigNotFound)), s, [MapLookup h])"
  by (simp add: getConfigByScopeID_def getScopedConfig_absent [OF assms] Let_def)


lemma errConfigNotFound_neq: "Some errConfigNotFound \<noteq> None"
  by simp

lemma configByScopedGetter_fast:
  assumes "scpOptionFnc = None \<or> sg = None" and "scoped_hash sg = DefaultHash"
    and "IsValid (defaultScopeCache s)"
  shows "configByScopedGetter scpOptionFnc s sg = ((defaultScopeCache s, None), s, [])"
  using assms by (auto simp add: configByScopedGetter_def scoped_hash_def Let_def)




lemma concrete_scoped_hashes:
  "scoped_hash (Some default_getter) = DefaultHash"
  "scoped_hash (Some website_getter) = NewHash Website 1"
  "NewHash Website 1 \<noteq> DefaultHash"
  by (simp_all add: scoped_hash_def default_getter_def website_getter_def NewHash_def
      DefaultHash_def Default_def Website_def MaxStoreID_def word_sless_alt)

text \<open>
  Claim C9, as stated: whenever the hash of the lookup is the default hash and the default
  entry is valid, the default entry is returned at once, without error, before any map
  lookup or option function call.  It is not when an option function is configured and a
  scoped getter is supplied: the map is read, the option function is called, and the
  error its option records is returned instead of the default entry.
\<close>

theorem fast_path_counterexample:
  "scoped_hash (Some default_getter) = DefaultHash \<and>
   IsValid (defaultScopeCache default_only_service) \<and>
   configByScopedGetter (Some failing_option_fnc) default_only_service (Some default_getter) =
     ((emptyConfig, Some (Wrap errBackend ''[jwtauth] Options by scpOptionFnc'')),
      default_only_service\<lparr>optionError := Some errBackend\<rparr>,
      [MapLookup DefaultHash, OptionFncCall])"
proof (intro conjI)
  show "scoped_hash (Some default_getter) = DefaultHash"
    by (rule concrete_scoped_hashes)
  show "IsValid (defaultScopeCache default_only_service)"
    by (simp add: default_only_service_def default_entry_def IsValid_def)
  have h: "NewHash (fst (SG_Scope default_getter)) (snd (SG_Scope default_getter)) = DefaultHash"
    using concrete_scoped_hashes(1) by (simp add: scoped_hash_def)
  have l: "getConfigByScopeID default_only_service False DefaultHash =
    ((emptyConfig, Some errConfigNotFound), default_only_service, [MapLookup DefaultHash])"
    by (simp add: getConfigByScopeID_absent default_only_service_def)
  have o: "Options default_only_service (failing_option_fnc (Some default_getter)) =
    (Some errBackend, default_only_service\<lparr>optionError := Some errBackend\<rparr>)"
    by (simp add: Options_def failing_option_fnc_def AddError_def default_only_service_def)
  show "configByScopedGetter (Some failing_option_fnc) default_only_service (Some default_getter) =
     ((emptyConfig, Some (Wrap errBackend ''[jwtauth] Options by scpOptionFnc'')),
      default_only_service\<lparr>optionError := Some errBackend\<rparr>,
      [MapLookup DefaultHash, OptionFncCall])"
    by (simp add: configByScopedGetter_def h l o Let_def)
qed

text \<open>
  Claim C9, amended.  For every cache state and every supplied scoped getter, whenever no
  scope option function is configured or no scoped getter is supplied, the hash computed
  from the scoped getter (or the default hash when none is supplied) equals the default
  hash, and the default entry is valid, the default entry is returned at once with no
  error: the service is unchanged, no map lookup is made and no option function is
  called.
\<close>

theorem default_fast_path:
  assumes "scpOptionFnc = None \<or> sg = None" and "scoped_hash sg = DefaultHash"
    and "IsValid (defaultScopeCache s)"
  shows "configByScopedGetter scpOptionFnc s sg = ((defaultScopeCache s, None), s, [])"
  using assms by (rule configByScopedGetter_fast)

theorem default_fast_path_witness:
  "((None :: ScopedOptionFunc option) = None \<or> Some default_getter = None) \<and>
   scoped_hash (Some default_getter) = DefaultHash \<and>
   IsValid (defaultScopeCache website_service) \<and>
   configByScopedGetter None website_service (Some default_getter) =
     ((default_entry, None), website_service, [])"
proof -
  have a: "(None :: ScopedOptionFunc option) = None \<or> Some default_getter = None" by simp
  have v: "IsValid (defaultScopeCache website_service)"
    by (simp add: IsValid_def website_service_def default_entry_def)
  have d: "defaultScopeCache website_service = default_entry"
    by (simp add: website_service_def)
  show ?thesis
    using a v concrete_scoped_hashes(1)
      default_fast_path [OF a concrete_scoped_hashes(1) v]
    by (simp add: d)
qed



end
